theory Spec2Isabelle
  imports Main "HOL-Library.Word" "HOL-Library.Signed_Division"
begin

section \<open>The sleep/wake path of the Pintos timer (devices/timer.c)\<close>

text \<open>
  The development embeds \<^verbatim>\<open>src/devices/timer.c\<close>: the tick counter, the list of
  sleeping threads, \<^verbatim>\<open>timer_sleep\<close>, the real-time sleeps built on it and the timer
  interrupt handler that wakes sleepers and restores their MLFQ state.

  C integers keep their width: \<^verbatim>\<open>int64_t\<close> is a 64-bit word, \<^verbatim>\<open>int\<close> and
  \<^verbatim>\<open>int32_t\<close> are 32-bit words. Addition, subtraction and multiplication wrap around
  as they do on the two's complement target; signed comparisons are \<open>\<le>s\<close> and \<open><s\<close>.
  A \<^verbatim>\<open>struct thread *\<close> is an address, modelled as a natural number, and the thread
  structures live in a store from addresses to records.
\<close>

subsection \<open>Data\<close>

type_synonym int64 = "64 word"
type_synonym int32 = "32 word"
type_synonym uint32 = "32 word"
type_synonym tid = nat

datatype intr_level = INTR_OFF | INTR_ON

datatype thread_status = THREAD_RUNNING | THREAD_READY | THREAD_BLOCKED | THREAD_DYING

text \<open>
  Modelled from the spec: \<^verbatim>\<open>struct thread\<close> is declared in threads/thread.h, which is
  not part of the sources at hand. timer.c reads and writes the two MLFQ fields
  \<^verbatim>\<open>mlfq_priority\<close> and \<^verbatim>\<open>ticks_at_priority\<close> (the spec's \<^verbatim>\<open>priority_level\<close> and
  \<^verbatim>\<open>ticks_at_level\<close>); the status is the spec's queue membership.
\<close>

record thread =
  status :: thread_status
  mlfq_priority :: int32
  ticks_at_priority :: int32

text \<open>
  \<^verbatim>\<open>struct sleeping_thread\<close> of timer.c. The list element \<^verbatim>\<open>elem\<close> is the entry's
  position in \<open>sleep_list\<close>.
\<close>

record sleeping_thread =
  thread :: tid
  wake_tick :: int64
  saved_mlfq_priority :: int32
  saved_ticks_at_priority :: int32

text \<open>
  Modelled from the spec: the state of the thread subsystem (threads/thread.c, not part of
  the sources at hand): the policy flag \<^verbatim>\<open>thread_mlfqs\<close>, the thread structures, the
  running thread, the idle thread, the single ready FIFO of the legacy policy, the
  \<open>L = 20\<close> priority-level FIFOs and the boost counter.
\<close>

record sched =
  thread_mlfqs :: bool
  threads :: "tid \<Rightarrow> thread"
  running :: tid
  idle_thread :: tid
  ready_list :: "tid list"
  mlfq_queues :: "nat \<Rightarrow> tid list"
  boost_counter :: nat

text \<open>
  The kernel state seen by timer.c: its three file-static variables \<^verbatim>\<open>ticks\<close>,
  \<^verbatim>\<open>loops_per_tick\<close> and \<^verbatim>\<open>sleep_list\<close>, the CPU's interrupt level, and the thread
  subsystem. The static variables and the sleep entries (automatic variables of
  \<^verbatim>\<open>timer_sleep\<close>, of a type local to timer.c) can be named by timer.c only, so the
  functions of thread.c act on the \<open>sched\<close> component alone.
\<close>

record kernel =
  ticks :: int64
  loops_per_tick :: uint32
  sleep_list :: "sleeping_thread list"
  intr_level :: intr_level
  sched :: sched

datatype panic = Assertion_failed | Divide_error

subsection \<open>Collaborators outside timer.c\<close>

text \<open>
  Modelled from the spec: the interrupt-level primitives of threads/interrupt.c (not part
  of the sources at hand), by which a mutation excludes the timer interrupt:
  \<^verbatim>\<open>intr_get_level\<close> reads the level, \<^verbatim>\<open>intr_disable\<close> turns interrupts off and returns
  the previous level, \<^verbatim>\<open>intr_set_level\<close> sets the level.
\<close>

definition intr_get_level :: "kernel \<Rightarrow> intr_level" where
  "intr_get_level s = intr_level s"

definition intr_disable :: "kernel \<Rightarrow> intr_level \<times> kernel" where
  "intr_disable s = (intr_level s, s\<lparr>intr_level := INTR_OFF\<rparr>)"

definition intr_set_level :: "intr_level \<Rightarrow> kernel \<Rightarrow> kernel" where
  "intr_set_level l s = s\<lparr>intr_level := l\<rparr>"

text \<open>Modelled from the spec: \<^verbatim>\<open>thread_current\<close> of thread.c, the running task.\<close>

definition thread_current :: "sched \<Rightarrow> tid" where
  "thread_current sc = running sc"

text \<open>
  Modelled from the spec: a change of a task's queue membership, the assignment to the
  status field of its thread structure.
\<close>

definition set_status :: "tid \<Rightarrow> thread_status \<Rightarrow> sched \<Rightarrow> sched" where
  "set_status t st sc = sc\<lparr>threads := (threads sc)(t := (threads sc t)\<lparr>status := st\<rparr>)\<rparr>"

text \<open>
  Modelled from the spec: the number of priority levels \<open>L = 20\<close> and the boost interval
  of 50 ticks (constants of threads/thread.h).
\<close>

definition MLFQ_LEVELS :: nat where
  "MLFQ_LEVELS = 20"

definition BOOST_INTERVAL :: nat where
  "BOOST_INTERVAL = 50"

text \<open>
  Modelled from the spec: \<^verbatim>\<open>enqueue(task)\<close> appends to the FIFO at the task's priority
  level; under the legacy policy the core is a single unprioritized ready FIFO.
\<close>

definition enqueue :: "tid \<Rightarrow> sched \<Rightarrow> sched" where
  "enqueue t sc =
     (if thread_mlfqs sc then
        (let p = unat (mlfq_priority (threads sc t))
         in sc\<lparr>mlfq_queues := (mlfq_queues sc)(p := mlfq_queues sc p @ [t])\<rparr>)
      else sc\<lparr>ready_list := ready_list sc @ [t]\<rparr>)"

text \<open>
  Modelled from the spec: \<^verbatim>\<open>dequeue_for_run()\<close> removes and returns the head of the
  highest non-empty level and returns the idle task if all levels are empty. It has no
  effect on priorities. \<open>highest_nonempty q n\<close> scans the levels \<open>n - 1\<close> down to \<open>0\<close>.
\<close>

fun highest_nonempty :: "(nat \<Rightarrow> tid list) \<Rightarrow> nat \<Rightarrow> nat option" where
  "highest_nonempty q 0 = None"
| "highest_nonempty q (Suc p) = (if q p \<noteq> [] then Some p else highest_nonempty q p)"

definition dequeue_for_run :: "sched \<Rightarrow> tid \<times> sched" where
  "dequeue_for_run sc =
     (if thread_mlfqs sc then
        (case highest_nonempty (mlfq_queues sc) MLFQ_LEVELS of
           None \<Rightarrow> (idle_thread sc, sc)
         | Some p \<Rightarrow> (hd (mlfq_queues sc p),
                      sc\<lparr>mlfq_queues := (mlfq_queues sc)(p := tl (mlfq_queues sc p))\<rparr>))
      else
        (case ready_list sc of
           [] \<Rightarrow> (idle_thread sc, sc)
         | t # rest \<Rightarrow> (t, sc\<lparr>ready_list := rest\<rparr>)))"

text \<open>
  Modelled from the spec: \<^verbatim>\<open>thread_block\<close> of thread.c transitions the running task to
  blocked and relinquishes the CPU: the dispatcher's choice becomes the running task.
\<close>

definition thread_block :: "sched \<Rightarrow> sched" where
  "thread_block sc =
     (let sc1 = set_status (thread_current sc) THREAD_BLOCKED sc;
          (next, sc2) = dequeue_for_run sc1
      in (set_status next THREAD_RUNNING sc2)\<lparr>running := next\<rparr>)"

text \<open>
  Modelled from the spec: \<^verbatim>\<open>thread_unblock\<close> of thread.c hands a blocked task to
  \<^verbatim>\<open>enqueue\<close> and makes it ready. The core does not guard against a task that is not
  blocked.
\<close>

definition thread_unblock :: "tid \<Rightarrow> sched \<Rightarrow> sched" where
  "thread_unblock t sc = set_status t THREAD_READY (enqueue t sc)"

subsection \<open>timer.c\<close>

text \<open>\<^verbatim>\<open>timer_init\<close>: the sleep list starts empty (the hardware set-up is not modelled).\<close>

definition timer_init :: "kernel \<Rightarrow> kernel" where
  "timer_init s = s\<lparr>sleep_list := []\<rparr>"

text \<open>\<^verbatim>\<open>timer_ticks\<close>: reads the tick counter with interrupts off.\<close>

definition timer_ticks :: "kernel \<Rightarrow> int64 \<times> kernel" where
  "timer_ticks s =
     (let (old_level, s1) = intr_disable s;
          t = ticks s1;
          s2 = intr_set_level old_level s1
      in (t, s2))"

definition timer_elapsed :: "int64 \<Rightarrow> kernel \<Rightarrow> int64 \<times> kernel" where
  "timer_elapsed then' s = (let (t, s1) = timer_ticks s in (t - then', s1))"

text \<open>
  \<^verbatim>\<open>timer_sleep\<close>. The parameter \<open>nticks\<close> is the source's \<^verbatim>\<open>ticks\<close>, which shadows the
  global counter there. \<open>st0\<close> is the indeterminate content of the automatic variable
  \<^verbatim>\<open>st\<close> before any field is assigned: under the legacy policy the two saved fields are
  never written and keep that content. The calling thread is suspended inside
  \<^verbatim>\<open>thread_block\<close>; the final \<^verbatim>\<open>intr_set_level\<close> is the caller's once it runs again.
\<close>

definition timer_sleep :: "int64 \<Rightarrow> sleeping_thread \<Rightarrow> kernel \<Rightarrow> panic + kernel" where
  "timer_sleep nticks st0 s =
     (let (start, s1) = timer_ticks s;
          cur = thread_current (sched s1)
      in if intr_get_level s1 \<noteq> INTR_ON then Inl Assertion_failed
         else if nticks \<le>s 0 then Inr s1
         else
           (let st1 = st0\<lparr>thread := cur, wake_tick := start + nticks\<rparr>;
                st2 = (if thread_mlfqs (sched s1)
                       then st1\<lparr>saved_mlfq_priority := mlfq_priority (threads (sched s1) cur),
                                saved_ticks_at_priority :=
                                  ticks_at_priority (threads (sched s1) cur)\<rparr>
                       else st1);
                (old_level, s2) = intr_disable s1;
                s3 = s2\<lparr>sleep_list := sleep_list s2 @ [st2]\<rparr>;
                s4 = s3\<lparr>sched := thread_block (sched s3)\<rparr>
            in Inr (intr_set_level old_level s4)))"

text \<open>
  The restore step of \<^verbatim>\<open>timer_interrupt\<close>: under the MLFQ policy the entry's saved
  priority and tick count are written to its thread; under the legacy policy nothing is.
\<close>

definition restore_mlfq_state :: "sleeping_thread \<Rightarrow> sched \<Rightarrow> sched" where
  "restore_mlfq_state st sc =
     (let t = thread st
      in if thread_mlfqs sc
         then sc\<lparr>threads := (threads sc)
                (t := (threads sc t)
                   \<lparr>mlfq_priority := saved_mlfq_priority st,
                    ticks_at_priority := saved_ticks_at_priority st\<rparr>)\<rparr>
         else sc)"

text \<open>
  The loop of \<^verbatim>\<open>timer_interrupt\<close> over the sleep list, at tick count \<open>now\<close>: an entry
  whose wake tick has been reached has its MLFQ state restored, is removed from the list
  and its thread is unblocked; any other entry is kept and the walk moves on. The result
  is the remaining list and the thread subsystem's state.
\<close>

fun wake_sleepers ::
  "int64 \<Rightarrow> sleeping_thread list \<Rightarrow> sched \<Rightarrow> sleeping_thread list \<times> sched" where
  "wake_sleepers now [] sc = ([], sc)"
| "wake_sleepers now (st # es) sc =
     (if wake_tick st \<le>s now then
        wake_sleepers now es (thread_unblock (thread st) (restore_mlfq_state st sc))
      else
        (let (rest, sc') = wake_sleepers now es sc in (st # rest, sc')))"

text \<open>
  \<^verbatim>\<open>timer_interrupt\<close>. \<^verbatim>\<open>thread_tick\<close> belongs to thread.c and is a parameter here: any
  function on the thread subsystem's state.
\<close>

definition timer_interrupt :: "(sched \<Rightarrow> sched) \<Rightarrow> kernel \<Rightarrow> kernel" where
  "timer_interrupt thread_tick s =
     (let s1 = s\<lparr>ticks := ticks s + 1\<rparr>;
          s2 = s1\<lparr>sched := thread_tick (sched s1)\<rparr>;
          (rest, sc) = wake_sleepers (ticks s2) (sleep_list s2) (sched s2)
      in s2\<lparr>sleep_list := rest, sched := sc\<rparr>)"

text \<open>
  \<^verbatim>\<open>timer_sleep\<close> runs with interrupts on until its \<^verbatim>\<open>intr_disable\<close>, so the timer
  interrupt can arrive between any two of its statements before that. This is the
  execution in which one interrupt arrives between the two reads of the snapshot, after
  \<^verbatim>\<open>st.saved_mlfq_priority = cur->mlfq_priority\<close> and before
  \<^verbatim>\<open>st.saved_ticks_at_priority = cur->ticks_at_priority\<close>; the handler returns to the
  caller, which goes on. Every other statement is as in \<open>timer_sleep\<close>.
\<close>

definition timer_sleep_preempted ::
  "(sched \<Rightarrow> sched) \<Rightarrow> int64 \<Rightarrow> sleeping_thread \<Rightarrow> kernel \<Rightarrow> panic + kernel" where
  "timer_sleep_preempted thread_tick nticks st0 s =
     (let (start, s1) = timer_ticks s;
          cur = thread_current (sched s1)
      in if intr_get_level s1 \<noteq> INTR_ON then Inl Assertion_failed
         else if nticks \<le>s 0 then Inr s1
         else
           (let st1 = st0\<lparr>thread := cur, wake_tick := start + nticks\<rparr>;
                (st2, s2) =
                  (if thread_mlfqs (sched s1)
                   then
                     (let sta = st1\<lparr>saved_mlfq_priority :=
                                      mlfq_priority (threads (sched s1) cur)\<rparr>;
                          s1' = timer_interrupt thread_tick s1;
                          stb = sta\<lparr>saved_ticks_at_priority :=
                                      ticks_at_priority (threads (sched s1') cur)\<rparr>
                      in (stb, s1'))
                   else (st1, s1));
                (old_level, s3) = intr_disable s2;
                s4 = s3\<lparr>sleep_list := sleep_list s3 @ [st2]\<rparr>;
                s5 = s4\<lparr>sched := thread_block (sched s4)\<rparr>
            in Inr (intr_set_level old_level s5)))"

subsection \<open>The scheduler's tick handler\<close>

text \<open>
  Modelled from the spec: the quantum of level \<open>p\<close> is \<open>(L - 1 - p) + 1\<close> ticks.
\<close>

definition quantum :: "int32 \<Rightarrow> int32" where
  "quantum p = (19 - p) + 1"

text \<open>
  Modelled from the spec: steps 1 to 3 of \<^verbatim>\<open>on_tick\<close> for the running task: count the
  tick; when the quantum is used up, demote by one level with the count reset, or at
  level 0 stay there with the count reset.
\<close>

definition account_tick :: "tid \<Rightarrow> sched \<Rightarrow> sched" where
  "account_tick t sc =
     (let th = threads sc t;
          th1 = th\<lparr>ticks_at_priority := ticks_at_priority th + 1\<rparr>;
          th2 = (if quantum (mlfq_priority th1) \<le>s ticks_at_priority th1 then
                   (if 0 <s mlfq_priority th1
                    then th1\<lparr>mlfq_priority := mlfq_priority th1 - 1, ticks_at_priority := 0\<rparr>
                    else th1\<lparr>ticks_at_priority := 0\<rparr>)
                 else th1)
      in sc\<lparr>threads := (threads sc)(t := th2)\<rparr>)"

text \<open>
  Modelled from the spec: \<^verbatim>\<open>boost_all()\<close> sets every task in the system (ready, running
  and sleeping) to level \<open>L - 1\<close> with a tick count of 0 and relocates the ready tasks to
  the top-level FIFO (here from level 18 down to level 0; the spec leaves the order
  open). It is a function of thread.c: what it reaches of a sleeping task is the task's
  own fields, the sleep entries being private to timer.c.
\<close>

definition boost_all :: "sched \<Rightarrow> sched" where
  "boost_all sc =
     sc\<lparr>threads := (\<lambda>t. (threads sc t)\<lparr>mlfq_priority := 19, ticks_at_priority := 0\<rparr>),
        mlfq_queues := (\<lambda>p. if p = 19
                             then mlfq_queues sc 19 @ concat (map (mlfq_queues sc) (rev [0..<19]))
                             else [])\<rparr>"

text \<open>
  Modelled from the spec: \<^verbatim>\<open>on_tick\<close>, the \<^verbatim>\<open>thread_tick\<close> of thread.c. Under the
  legacy policy it is a no-op. Under MLFQ it accounts the tick to the running task, if
  there is one besides the idle task, then advances the boost counter and boosts every
  task when the counter reaches the boost interval.
\<close>

definition on_tick :: "sched \<Rightarrow> sched" where
  "on_tick sc =
     (if \<not> thread_mlfqs sc then sc
      else
        (let sc1 = (if running sc \<noteq> idle_thread sc then account_tick (running sc) sc else sc);
             c = boost_counter sc1 + 1
         in if BOOST_INTERVAL \<le> c then (boost_all sc1)\<lparr>boost_counter := 0\<rparr>
            else sc1\<lparr>boost_counter := c\<rparr>))"

subsection \<open>Real-time sleeps and delays\<close>

text \<open>
  Division of \<^verbatim>\<open>int64_t\<close> values truncates towards zero. A zero divisor and the
  quotient \<open>- 2 ^ 63 / - 1\<close> have no result.
\<close>

definition sdiv64 :: "int64 \<Rightarrow> int64 \<Rightarrow> panic + int64" where
  "sdiv64 a b =
     (if b = 0 \<or> (a = - (2 ^ 63) \<and> b = - 1) then Inl Divide_error
      else Inr (word_of_int (sint a sdiv sint b)))"

text \<open>\<^verbatim>\<open>busy_wait\<close>: \<^verbatim>\<open>while (loops-- > 0) barrier ();\<close> leaves the state as it is.\<close>

function busy_wait :: "int64 \<Rightarrow> kernel \<Rightarrow> kernel" where
  "busy_wait loops s = (if 0 <s loops then busy_wait (loops - 1) s else s)"
  by pat_completeness auto

text \<open>
  \<^verbatim>\<open>timer.c\<close> refuses to compile unless \<open>19 \<le> TIMER_FREQ \<le> 1000\<close>. The macro is defined
  in devices/timer.h, which is not part of the sources at hand, and is a parameter of the
  functions below.
\<close>

definition timer_freq_ok :: "int32 \<Rightarrow> bool" where
  "timer_freq_ok TIMER_FREQ = (19 \<le>s TIMER_FREQ \<and> TIMER_FREQ \<le>s 1000)"

text \<open>
  \<^verbatim>\<open>real_time_delay\<close>: the operands of
  \<^verbatim>\<open>loops_per_tick * num / 1000 * TIMER_FREQ / (denom / 1000)\<close> are converted to
  \<^verbatim>\<open>int64_t\<close>, except for \<^verbatim>\<open>denom / 1000\<close>, which is computed in 32 bits first.
\<close>

definition real_time_delay :: "int32 \<Rightarrow> int64 \<Rightarrow> int32 \<Rightarrow> kernel \<Rightarrow> panic + kernel" where
  "real_time_delay TIMER_FREQ num denom s =
     (if (word_of_int (sint denom smod 1000) :: int32) \<noteq> 0 then Inl Assertion_failed
      else
        (case sdiv64 (ucast (loops_per_tick s) * num) 1000 of
           Inl e \<Rightarrow> Inl e
         | Inr a \<Rightarrow>
             (case sdiv64 (a * scast TIMER_FREQ)
                     (scast (word_of_int (sint denom sdiv 1000) :: int32)) of
                Inl e \<Rightarrow> Inl e
              | Inr loops \<Rightarrow> Inr (busy_wait loops s))))"

text \<open>
  \<^verbatim>\<open>real_time_sleep\<close>: the tick count is \<^verbatim>\<open>num * TIMER_FREQ / denom\<close> in 64-bit
  arithmetic. \<open>real_time_ticks\<close> names that first line.
\<close>

definition real_time_ticks :: "int32 \<Rightarrow> int64 \<Rightarrow> int32 \<Rightarrow> panic + int64" where
  "real_time_ticks TIMER_FREQ num denom = sdiv64 (num * scast TIMER_FREQ) (scast denom)"

definition real_time_sleep ::
  "int32 \<Rightarrow> int64 \<Rightarrow> int32 \<Rightarrow> sleeping_thread \<Rightarrow> kernel \<Rightarrow> panic + kernel" where
  "real_time_sleep TIMER_FREQ num denom st0 s =
     (case real_time_ticks TIMER_FREQ num denom of
        Inl e \<Rightarrow> Inl e
      | Inr nticks \<Rightarrow>
          if intr_get_level s \<noteq> INTR_ON then Inl Assertion_failed
          else if 0 <s nticks then timer_sleep nticks st0 s
          else real_time_delay TIMER_FREQ num denom s)"

definition timer_msleep :: "int32 \<Rightarrow> int64 \<Rightarrow> sleeping_thread \<Rightarrow> kernel \<Rightarrow> panic + kernel" where
  "timer_msleep TIMER_FREQ ms st0 s = real_time_sleep TIMER_FREQ ms 1000 st0 s"

definition timer_usleep :: "int32 \<Rightarrow> int64 \<Rightarrow> sleeping_thread \<Rightarrow> kernel \<Rightarrow> panic + kernel" where
  "timer_usleep TIMER_FREQ us st0 s = real_time_sleep TIMER_FREQ us (1000 * 1000) st0 s"

definition timer_nsleep :: "int32 \<Rightarrow> int64 \<Rightarrow> sleeping_thread \<Rightarrow> kernel \<Rightarrow> panic + kernel" where
  "timer_nsleep TIMER_FREQ ns st0 s = real_time_sleep TIMER_FREQ ns (1000 * 1000 * 1000) st0 s"

subsection \<open>Observations and a concrete run\<close>

text \<open>
  Modelled from the spec: a task is handed back to the ready structure when it is ready
  and sits in the FIFO of its priority level (MLFQ) or in the single ready FIFO (legacy).
\<close>

definition in_ready_structure :: "tid \<Rightarrow> sched \<Rightarrow> bool" where
  "in_ready_structure t sc =
     (status (threads sc t) = THREAD_READY \<and>
      (if thread_mlfqs sc
       then t \<in> set (mlfq_queues sc (unat (mlfq_priority (threads sc t))))
       else t \<in> set (ready_list sc)))"

text \<open>The tick count, status, priority level and tick count at that level of a task.\<close>

definition task_view :: "kernel \<Rightarrow> tid \<Rightarrow> int64 \<times> thread_status \<times> int32 \<times> int32" where
  "task_view s t =
     (ticks s, status (threads (sched s) t), mlfq_priority (threads (sched s) t),
      ticks_at_priority (threads (sched s) t))"

text \<open>
  The example scenario of the spec: at tick 5 task 1 runs at level 0 with 3 ticks used at
  that level; task 0 is the idle task; the last boost was at boot, so the boost counter
  is 5 and the next boost falls on tick 50. The flag selects the policy.
\<close>

definition scenario_sched :: "bool \<Rightarrow> sched" where
  "scenario_sched mlfqs =
     \<lparr>thread_mlfqs = mlfqs,
      threads = (\<lambda>t. \<lparr>status = (if t = 1 then THREAD_RUNNING else THREAD_BLOCKED),
                      mlfq_priority = (if t = 1 then 0 else 19),
                      ticks_at_priority = (if t = 1 then 3 else 0)\<rparr>),
      running = 1, idle_thread = 0, ready_list = [], mlfq_queues = (\<lambda>p. []),
      boost_counter = 5\<rparr>"

definition scenario :: "bool \<Rightarrow> kernel" where
  "scenario mlfqs =
     \<lparr>ticks = 5, loops_per_tick = 1024, sleep_list = [], intr_level = INTR_ON,
      sched = scenario_sched mlfqs\<rparr>"

text \<open>Some content of the stack slot that \<^verbatim>\<open>timer_sleep\<close> uses for its entry.\<close>

definition stack_junk :: sleeping_thread where
  "stack_junk = \<lparr>thread = 7, wake_tick = 0, saved_mlfq_priority = 11,
                 saved_ticks_at_priority = 13\<rparr>"

text \<open>
  A state with three sleepers registered in the order 2, 3, 4, of which the first and the
  last are due at tick 6.
\<close>

definition sleeper :: "tid \<Rightarrow> int64 \<Rightarrow> int32 \<Rightarrow> int32 \<Rightarrow> sleeping_thread" where
  "sleeper t w p k =
     \<lparr>thread = t, wake_tick = w, saved_mlfq_priority = p, saved_ticks_at_priority = k\<rparr>"

definition three_sleepers :: "bool \<Rightarrow> kernel" where
  "three_sleepers mlfqs =
     (scenario mlfqs)\<lparr>sleep_list := [sleeper 2 6 17 1, sleeper 3 9 4 2, sleeper 4 6 17 0]\<rparr>"

text \<open>
  The scenario's state with task 1 running at level \<open>p\<close> with \<open>k\<close> ticks used, under
  the MLFQ policy.
\<close>

definition running_at :: "int32 \<Rightarrow> int32 \<Rightarrow> kernel" where
  "running_at p k =
     (scenario True)
       \<lparr>sched := (scenario_sched True)
          \<lparr>threads := (\<lambda>t. \<lparr>status = (if t = 1 then THREAD_RUNNING else THREAD_BLOCKED),
                             mlfq_priority = (if t = 1 then p else 19),
                             ticks_at_priority = (if t = 1 then k else 0)\<rparr>)\<rparr>\<rparr>"

text \<open>
  The scenario's state at boot: the tick counter, a zero-initialised static variable of
  timer.c, and the boost counter are 0.
\<close>

definition at_boot :: kernel where
  "at_boot = (scenario True)\<lparr>ticks := 0, sched := (scenario_sched True)\<lparr>boost_counter := 0\<rparr>\<rparr>"

section \<open>Properties\<close>

subsection \<open>The busy-wait loop terminates\<close>

lemma sint_dec: "0 <s (loops::int64) \<Longrightarrow> sint (loops - 1) = sint loops - 1"
proof -
  assume a: "0 <s loops"
  have b: "sint loops < 2 ^ 63" using sint_lt [of loops] by simp
  have p: "0 < sint loops" using a by (simp add: word_sless_alt)
  have "sint (loops - 1) = signed_take_bit 63 (sint loops - 1)"
    by (simp add: sint_word_ariths)
  also have "\<dots> = sint loops - 1"
    using b p by (intro signed_take_bit_int_eq_self) auto
  finally show ?thesis .
qed

termination busy_wait
proof (relation "measure (\<lambda>(loops, s). nat (sint loops))")
  show "wf (measure (\<lambda>(loops, s). nat (sint (loops :: int64))))" by simp
next
  fix loops :: int64 and s :: kernel
  assume a: "0 <s loops"
  have "0 < sint loops" using a by (simp add: word_sless_alt)
  then show "((loops - 1, s), (loops, s)) \<in> measure (\<lambda>(loops, s). nat (sint loops))"
    using sint_dec [OF a] by simp
qed

declare busy_wait.simps [simp del]

lemma busy_wait_id: "busy_wait loops s = s"
proof (induction loops s rule: busy_wait.induct)
  case (1 loops s)
  show ?case
  proof (cases "0 <s loops")
    case True
    then show ?thesis using 1 by (subst busy_wait.simps) simp
  next
    case False
    then show ?thesis by (subst busy_wait.simps) simp
  qed
qed

subsection \<open>Frame properties of the collaborators\<close>

lemma timer_ticks_eq: "timer_ticks s = (ticks s, s)"
  by (simp add: timer_ticks_def intr_disable_def intr_set_level_def)

lemma set_status_fields:
  "mlfq_priority (threads (set_status t st sc) u) = mlfq_priority (threads sc u)"
  "ticks_at_priority (threads (set_status t st sc) u) = ticks_at_priority (threads sc u)"
  "thread_mlfqs (set_status t st sc) = thread_mlfqs sc"
  "ready_list (set_status t st sc) = ready_list sc"
  "mlfq_queues (set_status t st sc) = mlfq_queues sc"
  "boost_counter (set_status t st sc) = boost_counter sc"
  "running (set_status t st sc) = running sc"
  "idle_thread (set_status t st sc) = idle_thread sc"
  by (simp_all add: set_status_def)

lemma set_status_status:
  "status (threads (set_status t st sc) u) = (if u = t then st else status (threads sc u))"
  by (simp add: set_status_def)

lemma dequeue_for_run_frame:
  "threads (snd (dequeue_for_run sc)) = threads sc"
  "thread_mlfqs (snd (dequeue_for_run sc)) = thread_mlfqs sc"
  by (simp_all add: dequeue_for_run_def split: option.splits list.splits)

lemma thread_block_fields:
  "mlfq_priority (threads (thread_block sc) u) = mlfq_priority (threads sc u)"
  "ticks_at_priority (threads (thread_block sc) u) = ticks_at_priority (threads sc u)"
  "thread_mlfqs (thread_block sc) = thread_mlfqs sc"
  by (simp_all add: thread_block_def Let_def case_prod_beta set_status_fields
      dequeue_for_run_frame)


lemma timer_sleep_nonpos:
  "intr_level s = INTR_ON \<Longrightarrow> d \<le>s 0 \<Longrightarrow> timer_sleep d st0 s = Inr s"
  by (simp add: timer_sleep_def timer_ticks_eq intr_get_level_def)

lemma timer_sleep_pos:
  "intr_level s = INTR_ON \<Longrightarrow> \<not> d \<le>s 0 \<Longrightarrow>
   timer_sleep d st0 s =
     Inr (s\<lparr>sleep_list := sleep_list s @
            [if thread_mlfqs (sched s)
             then st0\<lparr>thread := running (sched s), wake_tick := ticks s + d,
                      saved_mlfq_priority := mlfq_priority (threads (sched s) (running (sched s))),
                      saved_ticks_at_priority := ticks_at_priority (threads (sched s) (running (sched s)))\<rparr>
             else st0\<lparr>thread := running (sched s), wake_tick := ticks s + d\<rparr>],
          sched := thread_block (sched s)\<rparr>)"
  by (simp add: timer_sleep_def timer_ticks_eq intr_get_level_def intr_disable_def
      intr_set_level_def thread_current_def Let_def)

lemma timer_sleep_off:
  "intr_level s \<noteq> INTR_ON \<Longrightarrow> timer_sleep d st0 s = Inl Assertion_failed"
  by (simp add: timer_sleep_def timer_ticks_eq intr_get_level_def)

subsection \<open>The wake loop\<close>

lemma wake_sleepers_fst:
  "fst (wake_sleepers now es sc) = filter (\<lambda>e. \<not> wake_tick e \<le>s now) es"
  by (induction es arbitrary: sc) (simp_all add: case_prod_beta)

lemma wake_sleepers_snd:
  "snd (wake_sleepers now es sc) =
     foldl (\<lambda>sc e. thread_unblock (thread e) (restore_mlfq_state e sc)) sc
       (filter (\<lambda>e. wake_tick e \<le>s now) es)"
  by (induction es arbitrary: sc) (simp_all add: case_prod_beta)

lemma timer_interrupt_sleep_list:
  "sleep_list (timer_interrupt tt s) = filter (\<lambda>e. \<not> wake_tick e \<le>s ticks s + 1) (sleep_list s)"
  using wake_sleepers_fst [of "ticks s + 1" "sleep_list s" "tt (sched s)"]
  by (simp add: timer_interrupt_def Let_def case_prod_beta)

lemma timer_interrupt_sched:
  "sched (timer_interrupt tt s) = snd (wake_sleepers (ticks s + 1) (sleep_list s) (tt (sched s)))"
  by (simp add: timer_interrupt_def Let_def case_prod_beta)

lemma timer_interrupt_ticks: "ticks (timer_interrupt tt s) = ticks s + 1"
  by (simp add: timer_interrupt_def Let_def case_prod_beta)

lemma timer_interrupt_other:
  "intr_level (timer_interrupt tt s) = intr_level s"
  "loops_per_tick (timer_interrupt tt s) = loops_per_tick s"
  by (simp_all add: timer_interrupt_def Let_def case_prod_beta)

lemma thread_unblock_frame:
  "thread_mlfqs (thread_unblock t sc) = thread_mlfqs sc"
  "mlfq_priority (threads (thread_unblock t sc) u) = mlfq_priority (threads sc u)"
  "ticks_at_priority (threads (thread_unblock t sc) u) = ticks_at_priority (threads sc u)"
  "status (threads (thread_unblock t sc) u) = (if u = t then THREAD_READY else status (threads sc u))"
  "running (thread_unblock t sc) = running sc"
  "idle_thread (thread_unblock t sc) = idle_thread sc"
  "boost_counter (thread_unblock t sc) = boost_counter sc"
  by (simp_all add: thread_unblock_def enqueue_def set_status_def Let_def)

lemma thread_unblock_queues:
  "ready_list (thread_unblock t sc) = (if thread_mlfqs sc then ready_list sc else ready_list sc @ [t])"
  "mlfq_queues (thread_unblock t sc) p =
     (if thread_mlfqs sc \<and> p = unat (mlfq_priority (threads sc t))
      then mlfq_queues sc p @ [t] else mlfq_queues sc p)"
  by (simp_all add: thread_unblock_def enqueue_def set_status_def Let_def)

lemma restore_frame:
  "thread_mlfqs (restore_mlfq_state e sc) = thread_mlfqs sc"
  "status (threads (restore_mlfq_state e sc) u) = status (threads sc u)"
  "ready_list (restore_mlfq_state e sc) = ready_list sc"
  "mlfq_queues (restore_mlfq_state e sc) = mlfq_queues sc"
  "running (restore_mlfq_state e sc) = running sc"
  "idle_thread (restore_mlfq_state e sc) = idle_thread sc"
  "boost_counter (restore_mlfq_state e sc) = boost_counter sc"
  by (simp_all add: restore_mlfq_state_def Let_def)

lemma restore_fields:
  "mlfq_priority (threads (restore_mlfq_state e sc) u) =
     (if thread_mlfqs sc \<and> u = thread e then saved_mlfq_priority e else mlfq_priority (threads sc u))"
  "ticks_at_priority (threads (restore_mlfq_state e sc) u) =
     (if thread_mlfqs sc \<and> u = thread e then saved_ticks_at_priority e
      else ticks_at_priority (threads sc u))"
  by (simp_all add: restore_mlfq_state_def Let_def)

lemmas wake_simps = thread_unblock_frame restore_frame restore_fields

lemma wake_sleepers_mlfqs:
  "thread_mlfqs (snd (wake_sleepers now es sc)) = thread_mlfqs sc"
  by (induction es arbitrary: sc) (simp_all add: case_prod_beta wake_simps)

lemma wake_sleepers_misc:
  "running (snd (wake_sleepers now es sc)) = running sc"
  "idle_thread (snd (wake_sleepers now es sc)) = idle_thread sc"
  "boost_counter (snd (wake_sleepers now es sc)) = boost_counter sc"
  by (induction es arbitrary: sc) (simp_all add: case_prod_beta wake_simps)

lemma wake_sleepers_untouched:
  "\<forall>e \<in> set es. thread e = u \<longrightarrow> \<not> wake_tick e \<le>s now \<Longrightarrow>
   threads (snd (wake_sleepers now es sc)) u = threads sc u"
proof (induction es arbitrary: sc)
  case Nil
  then show ?case by simp
next
  case (Cons e es)
  show ?case
  proof (cases "wake_tick e \<le>s now")
    case True
    with Cons.prems have ne: "thread e \<noteq> u" by auto
    have "threads (snd (wake_sleepers now es (thread_unblock (thread e) (restore_mlfq_state e sc)))) u
        = threads (thread_unblock (thread e) (restore_mlfq_state e sc)) u"
      using Cons.prems by (intro Cons.IH) auto
    also have "\<dots> = threads sc u"
      using ne by (simp add: thread_unblock_def enqueue_def set_status_def restore_mlfq_state_def Let_def)
    finally show ?thesis using True by simp
  next
    case False
    then show ?thesis using Cons by (simp add: case_prod_beta)
  qed
qed

lemma wake_sleepers_legacy_fields:
  "\<not> thread_mlfqs sc \<Longrightarrow>
   mlfq_priority (threads (snd (wake_sleepers now es sc)) u) = mlfq_priority (threads sc u) \<and>
   ticks_at_priority (threads (snd (wake_sleepers now es sc)) u) = ticks_at_priority (threads sc u)"
  by (induction es arbitrary: sc) (simp_all add: case_prod_beta wake_simps)

lemma wake_sleepers_restored:
  assumes "e \<in> set es" "wake_tick e \<le>s now" "thread_mlfqs sc"
    and "\<forall>e' \<in> set es. thread e' = thread e \<longrightarrow> e' = e"
  shows "mlfq_priority (threads (snd (wake_sleepers now es sc)) (thread e)) = saved_mlfq_priority e \<and>
     ticks_at_priority (threads (snd (wake_sleepers now es sc)) (thread e)) = saved_ticks_at_priority e"
  using assms
proof (induction es arbitrary: sc)
  case Nil
  then show ?case by simp
next
  case (Cons x es)
  show ?case
  proof (cases "wake_tick x \<le>s now")
    case exp: True
    let ?sc = "thread_unblock (thread x) (restore_mlfq_state x sc)"
    have m: "thread_mlfqs ?sc" using Cons.prems by (simp add: wake_simps)
    show ?thesis
    proof (cases "e \<in> set es")
      case True
      then show ?thesis using Cons.IH [of ?sc] Cons.prems m exp by simp
    next
      case False
      then have xe: "x = e" using Cons.prems by auto
      have "\<forall>e' \<in> set es. thread e' = thread e \<longrightarrow> \<not> wake_tick e' \<le>s now"
        using Cons.prems False by auto
      then have "threads (snd (wake_sleepers now es ?sc)) (thread e) = threads ?sc (thread e)"
        by (rule wake_sleepers_untouched)
      then show ?thesis using exp xe Cons.prems by (simp add: wake_simps)
    qed
  next
    case nexp: False
    then have "x \<noteq> e" using Cons.prems by auto
    then show ?thesis using Cons nexp by (simp add: case_prod_beta)
  qed
qed

lemma wake_sleepers_status_ready:
  "status (threads sc u) = THREAD_READY \<Longrightarrow> status (threads (snd (wake_sleepers now es sc)) u) = THREAD_READY"
  by (induction es arbitrary: sc) (simp_all add: case_prod_beta wake_simps)

lemma wake_sleepers_ready:
  "e \<in> set es \<Longrightarrow> wake_tick e \<le>s now \<Longrightarrow>
   status (threads (snd (wake_sleepers now es sc)) (thread e)) = THREAD_READY"
proof (induction es arbitrary: sc)
  case Nil
  then show ?case by simp
next
  case (Cons x es)
  show ?case
  proof (cases "x = e")
    case True
    then show ?thesis using Cons.prems
      by (simp add: wake_sleepers_status_ready wake_simps)
  next
    case False
    then show ?thesis using Cons
      by (simp add: case_prod_beta)
  qed
qed

lemma wake_sleepers_status_other:
  "\<forall>e \<in> set es. thread e = u \<longrightarrow> \<not> wake_tick e \<le>s now \<Longrightarrow>
   status (threads (snd (wake_sleepers now es sc)) u) = status (threads sc u)"
  by (simp add: wake_sleepers_untouched)

lemma wake_sleepers_ready_list:
  "\<not> thread_mlfqs sc \<Longrightarrow>
   ready_list (snd (wake_sleepers now es sc)) =
     ready_list sc @ map thread (filter (\<lambda>e. wake_tick e \<le>s now) es)"
  by (induction es arbitrary: sc) (simp_all add: case_prod_beta wake_simps thread_unblock_queues)

lemma wake_sleepers_ready_list_mlfq:
  "thread_mlfqs sc \<Longrightarrow> ready_list (snd (wake_sleepers now es sc)) = ready_list sc"
  by (induction es arbitrary: sc) (simp_all add: case_prod_beta wake_simps thread_unblock_queues)

lemma wake_sleepers_mlfq_queues:
  "thread_mlfqs sc \<Longrightarrow>
   mlfq_queues (snd (wake_sleepers now es sc)) p =
     mlfq_queues sc p @
       map thread (filter (\<lambda>e. wake_tick e \<le>s now \<and> unat (saved_mlfq_priority e) = p) es)"
  by (induction es arbitrary: sc) (auto simp add: case_prod_beta wake_simps thread_unblock_queues)

lemma wake_sleepers_mlfq_queues_legacy:
  "\<not> thread_mlfqs sc \<Longrightarrow> mlfq_queues (snd (wake_sleepers now es sc)) = mlfq_queues sc"
  by (induction es arbitrary: sc) (auto simp add: case_prod_beta wake_simps thread_unblock_queues)

subsection \<open>Evaluating concrete runs\<close>

lemmas scenario_defs = scenario_def scenario_sched_def stack_junk_def task_view_def
  sleeper_def three_sleepers_def running_at_def at_boot_def

lemmas run_defs = timer_sleep_def timer_ticks_def intr_disable_def intr_set_level_def
  intr_get_level_def thread_current_def thread_block_def set_status_def dequeue_for_run_def
  timer_sleep_preempted_def
  MLFQ_LEVELS_def BOOST_INTERVAL_def timer_interrupt_def on_tick_def boost_all_def
  account_tick_def quantum_def restore_mlfq_state_def thread_unblock_def enqueue_def
  in_ready_structure_def Let_def eval_nat_numeral word_sle_eq word_sless_alt

lemma on_tick_frame:
  "thread_mlfqs (on_tick sc) = thread_mlfqs sc"
  "status (threads (on_tick sc) u) = status (threads sc u)"
  by (simp_all add: on_tick_def boost_all_def account_tick_def Let_def)

lemma on_tick_legacy: "\<not> thread_mlfqs sc \<Longrightarrow> on_tick sc = sc"
  by (simp add: on_tick_def)

subsection \<open>Non-positive durations\<close>

text \<open>
  Claim C4. For every duration \<open>nticks \<le> 0\<close>, \<^verbatim>\<open>timer_sleep\<close> (the spec's
  \<^verbatim>\<open>register\<close>), called with interrupts on as it asserts, is an immediate no-op: it
  returns, and the whole kernel state is the one before the call, so the caller is not
  blocked, no sleep entry is inserted and no scheduling field changes.
\<close>

theorem timer_sleep_nonpositive_noop:
  "intr_get_level s = INTR_ON \<Longrightarrow> nticks \<le>s 0 \<Longrightarrow> timer_sleep nticks st0 s = Inr s"
  by (simp add: timer_sleep_nonpos intr_get_level_def)

theorem timer_sleep_nonpositive_noop_witness:
  "intr_get_level (scenario True) = INTR_ON \<and> (- 3 :: int64) \<le>s 0 \<and>
   timer_sleep (- 3) stack_junk (scenario True) = Inr (scenario True)"
proof -
  have a: "intr_get_level (scenario True) = INTR_ON"
    by (simp add: scenario_def intr_get_level_def)
  have b: "(- 3 :: int64) \<le>s 0" by (simp add: word_sle_eq)
  show ?thesis using a b timer_sleep_nonpositive_noop [OF a b, of stack_junk] by simp
qed

subsection \<open>What timer_sleep leaves alone\<close>

text \<open>
  Claim C10. \<^verbatim>\<open>timer_sleep\<close> never writes the MLFQ fields of the calling task, nor of
  any task \<open>t\<close>: for any duration and either policy, whenever it returns, the priority
  and the tick count of every task, the policy flag, the tick counter, the calibration
  value and the interrupt level are as before; the state is untouched for a non-positive
  duration, and otherwise the sleep list is the old one with one entry appended.
\<close>

theorem timer_sleep_frame:
  assumes "timer_sleep nticks st0 s = Inr s'"
  shows "mlfq_priority (threads (sched s') t) = mlfq_priority (threads (sched s) t) \<and>
         ticks_at_priority (threads (sched s') t) = ticks_at_priority (threads (sched s) t) \<and>
         thread_mlfqs (sched s') = thread_mlfqs (sched s) \<and>
         ticks s' = ticks s \<and> loops_per_tick s' = loops_per_tick s \<and>
         intr_level s' = intr_level s \<and>
         (if nticks \<le>s 0 then s' = s
          else butlast (sleep_list s') = sleep_list s \<and> sleep_list s' \<noteq> [])"
proof (cases "intr_level s = INTR_ON")
  case False
  then show ?thesis using assms by (simp add: timer_sleep_off)
next
  case on: True
  show ?thesis
  proof (cases "nticks \<le>s 0")
    case True
    then show ?thesis using assms on by (simp add: timer_sleep_nonpos)
  next
    case False
    then show ?thesis using assms on
      by (auto simp add: timer_sleep_pos thread_block_fields)
  qed
qed

theorem timer_sleep_frame_witness:
  "(case timer_sleep 100 stack_junk (scenario True) of
      Inl e \<Rightarrow> False
    | Inr s' \<Rightarrow>
        task_view s' 1 = (5, THREAD_BLOCKED, 0, 3) \<and> length (sleep_list s') = 1 \<and>
        mlfq_priority (threads (sched s') 1) = mlfq_priority (threads (sched (scenario True)) 1) \<and>
        butlast (sleep_list s') = sleep_list (scenario True))"
proof -
  have r: "timer_sleep 100 stack_junk (scenario True) =
     Inr ((scenario True)\<lparr>sleep_list := [sleeper 1 105 0 3],
            sched := thread_block (sched (scenario True))\<rparr>)"
    by (simp add: scenario_defs timer_sleep_pos word_sle_eq)
  have n: "\<not> (100 :: int64) \<le>s 0" by (simp add: word_sle_eq)
  show ?thesis
    using timer_sleep_frame [OF r, of 1] n
    by (simp add: r) (simp add: scenario_defs run_defs)
qed

subsection \<open>Deadlines and the wake check\<close>

lemma wake_one_in_ready:
  "in_ready_structure (thread e) (thread_unblock (thread e) (restore_mlfq_state e sc))"
  by (simp add: in_ready_structure_def thread_unblock_def enqueue_def set_status_def
      restore_mlfq_state_def Let_def)

lemma wake_one_keeps_ready:
  "in_ready_structure t sc \<Longrightarrow>
   in_ready_structure t (thread_unblock (thread x) (restore_mlfq_state x sc))"
  by (auto simp add: in_ready_structure_def thread_unblock_def enqueue_def set_status_def
      restore_mlfq_state_def Let_def)

lemma wake_sleepers_keeps_ready:
  "in_ready_structure t sc \<Longrightarrow> in_ready_structure t (snd (wake_sleepers now es sc))"
  by (induction es arbitrary: sc) (simp_all add: case_prod_beta wake_one_keeps_ready)

lemma wake_sleepers_in_ready:
  "e \<in> set es \<Longrightarrow> wake_tick e \<le>s now \<Longrightarrow>
   in_ready_structure (thread e) (snd (wake_sleepers now es sc))"
proof (induction es arbitrary: sc)
  case Nil
  then show ?case by simp
next
  case (Cons x es)
  show ?case
  proof (cases "x = e")
    case True
    then show ?thesis using Cons.prems
      by (simp add: wake_sleepers_keeps_ready wake_one_in_ready)
  next
    case False
    then show ?thesis using Cons by (simp add: case_prod_beta)
  qed
qed

lemma timer_interrupt_threads_untouched:
  "\<forall>e \<in> set (sleep_list s). thread e = u \<longrightarrow> \<not> wake_tick e \<le>s ticks s + 1 \<Longrightarrow>
   threads (sched (timer_interrupt tt s)) u = threads (tt (sched s)) u"
  by (simp add: timer_interrupt_sched wake_sleepers_untouched)

lemma sint_add_in_range:
  assumes "- (2 ^ 63) \<le> sint (a :: int64) + sint b" and "sint a + sint b < 2 ^ 63"
  shows "sint (a + b) = sint a + sint b"
proof -
  have "sint (a + b) = signed_take_bit 63 (sint a + sint b)"
    by (simp add: sint_word_ariths)
  then show ?thesis using assms by (simp add: signed_take_bit_int_eq_self)
qed

text \<open>
  Claim C3, as amended. A call of \<^verbatim>\<open>timer_sleep\<close> with a positive duration at tick count
  \<open>now\<close>, with \<open>now + duration\<close> at most the largest \<^verbatim>\<open>int64_t\<close> value, returns with
  one entry appended to the sleep list, for the calling thread, whose wake tick is
  \<open>now + duration\<close>. In the tick handler, an entry of the sleep list is removed exactly
  when its wake tick is at most the incremented tick count; its task is then ready and
  in the ready structure; and a task none of whose entries is due is left by the wake
  check as \<^verbatim>\<open>thread_tick\<close> left it.
\<close>

theorem sleep_deadline_and_wake:
  "(intr_get_level s = INTR_ON \<and> 0 <s nticks \<and> sint (ticks s) + sint nticks < 2 ^ 63 \<longrightarrow>
      (\<exists>st. timer_sleep nticks st0 s =
              Inr (s\<lparr>sleep_list := sleep_list s @ [st], sched := thread_block (sched s)\<rparr>) \<and>
            thread st = thread_current (sched s) \<and>
            sint (wake_tick st) = sint (ticks s) + sint nticks)) \<and>
   (e \<in> set (sleep_list s) \<longrightarrow>
      (e \<in> set (sleep_list (timer_interrupt tt s)) \<longleftrightarrow> \<not> wake_tick e \<le>s ticks s + 1) \<and>
      (wake_tick e \<le>s ticks s + 1 \<longrightarrow>
         in_ready_structure (thread e) (sched (timer_interrupt tt s))) \<and>
      ((\<forall>e' \<in> set (sleep_list s). thread e' = thread e \<longrightarrow> \<not> wake_tick e' \<le>s ticks s + 1) \<longrightarrow>
         threads (sched (timer_interrupt tt s)) (thread e) = threads (tt (sched s)) (thread e)))"
proof (intro conjI impI)
  assume a: "intr_get_level s = INTR_ON \<and> 0 <s nticks \<and> sint (ticks s) + sint nticks < 2 ^ 63"
  then have np: "\<not> nticks \<le>s 0" and pos: "0 < sint nticks"
    by (simp_all add: word_sle_eq word_sless_alt)
  have "- (2 ^ 63) \<le> sint (ticks s)" using sint_ge [of "ticks s"] by simp
  then have "- (2 ^ 63) \<le> sint (ticks s) + sint nticks" using pos by simp
  then have "sint (ticks s + nticks) = sint (ticks s) + sint nticks"
    using a by (intro sint_add_in_range) simp_all
  then show "\<exists>st. timer_sleep nticks st0 s =
              Inr (s\<lparr>sleep_list := sleep_list s @ [st], sched := thread_block (sched s)\<rparr>) \<and>
            thread st = thread_current (sched s) \<and>
            sint (wake_tick st) = sint (ticks s) + sint nticks"
    using a np by (auto simp add: timer_sleep_pos intr_get_level_def thread_current_def)
next
  assume "e \<in> set (sleep_list s)"
  then show "(e \<in> set (sleep_list (timer_interrupt tt s))) = (\<not> wake_tick e \<le>s ticks s + 1)"
    by (simp add: timer_interrupt_sleep_list)
next
  assume "e \<in> set (sleep_list s)" "wake_tick e \<le>s ticks s + 1"
  then show "in_ready_structure (thread e) (sched (timer_interrupt tt s))"
    by (simp add: timer_interrupt_sched wake_sleepers_in_ready)
next
  assume "\<forall>e' \<in> set (sleep_list s). thread e' = thread e \<longrightarrow> \<not> wake_tick e' \<le>s ticks s + 1"
  then show "threads (sched (timer_interrupt tt s)) (thread e) = threads (tt (sched s)) (thread e)"
    by (rule timer_interrupt_threads_untouched)
qed

theorem sleep_deadline_and_wake_witness:
  "intr_get_level (three_sleepers True) = INTR_ON \<and> (0 :: int64) <s 100 \<and>
   sint (ticks (three_sleepers True)) + sint (100 :: int64) < 2 ^ 63 \<and>
   sleeper 2 6 17 1 \<in> set (sleep_list (three_sleepers True)) \<and>
   sleeper 2 6 17 1 \<notin> set (sleep_list (timer_interrupt on_tick (three_sleepers True))) \<and>
   wake_tick (sleeper 2 6 17 1) \<le>s ticks (three_sleepers True) + 1 \<and>
   in_ready_structure 2 (sched (timer_interrupt on_tick (three_sleepers True))) \<and>
   (\<exists>st. timer_sleep 100 stack_junk (three_sleepers True) =
      Inr ((three_sleepers True)\<lparr>sleep_list := sleep_list (three_sleepers True) @ [st],
             sched := thread_block (sched (three_sleepers True))\<rparr>) \<and>
      sint (wake_tick st) = 105)"
proof -
  have t: "ticks (three_sleepers True) = 5" "thread (sleeper 2 6 17 1) = 2"
    by (simp_all add: scenario_defs)
  have a: "intr_get_level (three_sleepers True) = INTR_ON \<and> (0 :: int64) <s 100 \<and>
      sint (ticks (three_sleepers True)) + sint (100 :: int64) < 2 ^ 63"
    by (simp add: t) (simp add: scenario_defs intr_get_level_def word_sless_alt)
  have b: "sleeper 2 6 17 1 \<in> set (sleep_list (three_sleepers True))"
    by (simp add: scenario_defs)
  have c: "wake_tick (sleeper 2 6 17 1) \<le>s ticks (three_sleepers True) + 1"
    by (simp add: scenario_defs word_sle_eq)
  show ?thesis
    using a b c
      sleep_deadline_and_wake [of "three_sleepers True" 100 stack_junk "sleeper 2 6 17 1" on_tick]
    by (auto simp add: t)
qed

text \<open>
  The claim as stated fails when \<open>now + duration\<close> exceeds the largest \<^verbatim>\<open>int64_t\<close>
  value: \<^verbatim>\<open>timer_sleep\<close> called at tick 5 with the largest duration stores a negative
  wake tick, not \<open>5 + (2 ^ 63 - 1)\<close>, and the task is woken by the next interrupt, at
  tick 6.
\<close>

theorem deadline_out_of_range:
  "(0 :: int64) <s 0x7FFFFFFFFFFFFFFF \<and>
   sint (ticks (scenario True)) + sint (0x7FFFFFFFFFFFFFFF :: int64) = 9223372036854775812 \<and>
   (case timer_sleep 0x7FFFFFFFFFFFFFFF stack_junk (scenario True) of
      Inl e \<Rightarrow> False
    | Inr s1 \<Rightarrow>
        map (\<lambda>st. sint (wake_tick st)) (sleep_list s1) = [- 9223372036854775804] \<and>
        task_view s1 1 = (5, THREAD_BLOCKED, 0, 3) \<and>
        sleep_list (timer_interrupt on_tick s1) = [] \<and>
        task_view (timer_interrupt on_tick s1) 1 = (6, THREAD_READY, 0, 3))"
  by (simp add: scenario_defs run_defs)

subsection \<open>Sleep and wake\<close>

lemma timer_interrupt_restored:
  assumes "e \<in> set (sleep_list s)" "wake_tick e \<le>s ticks s + 1" "thread_mlfqs (tt (sched s))"
    and "\<forall>e' \<in> set (sleep_list s). thread e' = thread e \<longrightarrow> e' = e"
  shows "mlfq_priority (threads (sched (timer_interrupt tt s)) (thread e)) = saved_mlfq_priority e"
    and "ticks_at_priority (threads (sched (timer_interrupt tt s)) (thread e)) =
           saved_ticks_at_priority e"
  using wake_sleepers_restored [OF assms]
  by (simp_all add: timer_interrupt_sched)

text \<open>
  A call of \<^verbatim>\<open>timer_sleep\<close> that no interrupt cuts into registers the caller's priority
  and tick count, and the wake path writes them back: in any later state \<open>s2\<close> in which
  the entry is the task's sleep entry and is due at the next tick, the handler removes
  the entry, makes the task ready and the task has the two values of the call again.
\<close>

lemma unpreempted_sleep_wake:
  assumes sleep: "timer_sleep nticks st0 s = Inr s1" and pos: "0 <s nticks"
    and mlfqs: "thread_mlfqs (sched s)"
    and asleep: "last (sleep_list s1) \<in> set (sleep_list s2)"
    and sole: "\<forall>e' \<in> set (sleep_list s2).
                 thread e' = thread_current (sched s) \<longrightarrow> e' = last (sleep_list s1)"
    and flag: "thread_mlfqs (tt (sched s2))"
    and due: "wake_tick (last (sleep_list s1)) \<le>s ticks s2 + 1"
  shows "mlfq_priority (threads (sched (timer_interrupt tt s2)) (thread_current (sched s))) =
           mlfq_priority (threads (sched s) (thread_current (sched s))) \<and>
         ticks_at_priority (threads (sched (timer_interrupt tt s2)) (thread_current (sched s))) =
           ticks_at_priority (threads (sched s) (thread_current (sched s))) \<and>
         status (threads (sched (timer_interrupt tt s2)) (thread_current (sched s))) =
           THREAD_READY \<and>
         last (sleep_list s1) \<notin> set (sleep_list (timer_interrupt tt s2))"
proof -
  let ?e = "last (sleep_list s1)"
  have on: "intr_level s = INTR_ON"
    using sleep by (cases "intr_level s = INTR_ON") (simp_all add: timer_sleep_off)
  have np: "\<not> nticks \<le>s 0" using pos by (simp add: word_sle_eq word_sless_alt)
  have e: "thread ?e = thread_current (sched s)"
    "saved_mlfq_priority ?e = mlfq_priority (threads (sched s) (thread_current (sched s)))"
    "saved_ticks_at_priority ?e = ticks_at_priority (threads (sched s) (thread_current (sched s)))"
    using sleep mlfqs by (auto simp add: timer_sleep_pos [OF on np] thread_current_def)
  have sole': "\<forall>e' \<in> set (sleep_list s2). thread e' = thread ?e \<longrightarrow> e' = ?e"
    using sole e(1) by simp
  have "in_ready_structure (thread ?e) (sched (timer_interrupt tt s2))"
    using asleep due by (simp add: timer_interrupt_sched wake_sleepers_in_ready)
  then have r: "status (threads (sched (timer_interrupt tt s2)) (thread ?e)) = THREAD_READY"
    by (simp add: in_ready_structure_def)
  show ?thesis
    using timer_interrupt_restored [of ?e s2 tt, OF asleep due flag sole'] r due e
    by (simp add: timer_interrupt_sleep_list)
qed

text \<open>
  Claim C2 says that a task at priority \<open>p\<close> with tick count \<open>k\<close> that calls
  \<^verbatim>\<open>timer_sleep\<close> under the MLFQ policy and is woken with no boost in between has
  exactly \<open>p\<close> and \<open>k\<close> again. The code does otherwise when the timer interrupt
  arrives during the call: the two fields are read with interrupts on, before the
  \<^verbatim>\<open>intr_disable\<close> that guards the insertion. Task 1 at level 18 with 1 tick used
  calls \<^verbatim>\<open>timer_sleep (10)\<close> at tick 5; the interrupt of tick 6 arrives between the two
  reads and the scheduler's tick handler demotes the running task to level 17 with 0
  ticks. The entry then holds level 18 (read before) and 0 ticks (read after), the task
  blocks at level 17 with 0 ticks, no boost occurs up to tick 15, and the task wakes at
  level 18 with 0 ticks: neither the pair it had at the call nor the pair it had when
  it blocked.
\<close>

theorem snapshot_torn_by_interrupt:
  "task_view (running_at 18 1) 1 = (5, THREAD_RUNNING, 18, 1) \<and>
   (case timer_sleep_preempted on_tick 10 stack_junk (running_at 18 1) of
      Inl e \<Rightarrow> False
    | Inr s1 \<Rightarrow>
        sleep_list s1 = [sleeper 1 15 18 0] \<and>
        task_view s1 1 = (6, THREAD_BLOCKED, 17, 0) \<and>
        task_view ((timer_interrupt on_tick ^^ 8) s1) 1 = (14, THREAD_BLOCKED, 17, 0) \<and>
        boost_counter (sched ((timer_interrupt on_tick ^^ 9) s1)) = 15 \<and>
        task_view ((timer_interrupt on_tick ^^ 9) s1) 1 = (15, THREAD_READY, 18, 0))"
  by (simp add: scenario_defs run_defs)

subsection \<open>Runs of the tick handler\<close>

lemma run_ticks: "ticks ((timer_interrupt tt ^^ n) s) = ticks s + of_nat n"
  by (induction n) (simp_all add: timer_interrupt_ticks)

lemma run_sleep_list_subset:
  "set (sleep_list ((timer_interrupt tt ^^ n) s)) \<subseteq> set (sleep_list s)"
  by (induction n) (auto simp add: timer_interrupt_sleep_list)

text \<open>
  Claim C5. No early wake: let \<open>e\<close> be the sleep entry of a blocked task (its only
  one, by the single membership that callers guarantee), and let the
  tick handler run \<open>n\<close> times while the tick count stays below the entry's wake tick
  (at each of these steps the wake tick exceeds the incremented count). Then the entry
  is still in the sleep list and the task is still blocked; with \<open>n = 1\<close> this is the
  single tick-handler step. \<^verbatim>\<open>thread_tick\<close> is any function of the thread subsystem
  that leaves the task's status alone, as the scheduler's tick handler does.
\<close>

theorem no_early_wake:
  assumes "e \<in> set (sleep_list s)"
    and "\<forall>e' \<in> set (sleep_list s). thread e' = thread e \<longrightarrow> e' = e"
    and "status (threads (sched s) (thread e)) = THREAD_BLOCKED"
    and "\<forall>sc. status (threads (tt sc) (thread e)) = status (threads sc (thread e))"
    and "\<forall>k. 1 \<le> k \<and> k \<le> n \<longrightarrow> \<not> wake_tick e \<le>s ticks s + of_nat k"
  shows "e \<in> set (sleep_list ((timer_interrupt tt ^^ n) s)) \<and>
         status (threads (sched ((timer_interrupt tt ^^ n) s)) (thread e)) = THREAD_BLOCKED"
  using assms(5)
proof (induction n)
  case 0
  then show ?case using assms by simp
next
  case (Suc n)
  let ?s = "(timer_interrupt tt ^^ n) s"
  have ih: "e \<in> set (sleep_list ?s)" "status (threads (sched ?s) (thread e)) = THREAD_BLOCKED"
    using Suc by simp_all
  have "1 \<le> Suc n \<and> Suc n \<le> Suc n" by simp
  with Suc.prems have "\<not> wake_tick e \<le>s ticks s + of_nat (Suc n)" by blast
  then have nd: "\<not> wake_tick e \<le>s ticks ?s + 1" by (simp add: run_ticks ac_simps)
  have sole: "\<forall>e' \<in> set (sleep_list ?s). thread e' = thread e \<longrightarrow> e' = e"
    using assms(2) run_sleep_list_subset [of n tt s] by blast
  then have "\<forall>e' \<in> set (sleep_list ?s). thread e' = thread e \<longrightarrow> \<not> wake_tick e' \<le>s ticks ?s + 1"
    using nd by blast
  then have "threads (sched (timer_interrupt tt ?s)) (thread e) = threads (tt (sched ?s)) (thread e)"
    by (rule timer_interrupt_threads_untouched)
  then have "status (threads (sched (timer_interrupt tt ?s)) (thread e)) = THREAD_BLOCKED"
    using assms(4) ih(2) by simp
  moreover have "e \<in> set (sleep_list (timer_interrupt tt ?s))"
    using ih(1) nd by (simp add: timer_interrupt_sleep_list)
  ultimately show ?case by simp
qed

theorem no_early_wake_witness:
  "sleeper 3 9 4 2 \<in> set (sleep_list (three_sleepers True)) \<and>
   status (threads (sched (three_sleepers True)) 3) = THREAD_BLOCKED \<and>
   sleeper 3 9 4 2 \<in> set (sleep_list ((timer_interrupt on_tick ^^ 3) (three_sleepers True))) \<and>
   status (threads (sched ((timer_interrupt on_tick ^^ 3) (three_sleepers True))) 3) =
     THREAD_BLOCKED \<and>
   ticks ((timer_interrupt on_tick ^^ 3) (three_sleepers True)) = 8"
proof -
  let ?e = "sleeper 3 9 4 2"
  have a: "?e \<in> set (sleep_list (three_sleepers True))"
    and b: "\<forall>e' \<in> set (sleep_list (three_sleepers True)). thread e' = thread ?e \<longrightarrow> e' = ?e"
    and c: "status (threads (sched (three_sleepers True)) (thread ?e)) = THREAD_BLOCKED"
    by (simp_all add: scenario_defs)
  have d: "\<forall>sc. status (threads (on_tick sc) (thread ?e)) = status (threads sc (thread ?e))"
    by (simp add: on_tick_frame)
  have "\<not> wake_tick ?e \<le>s ticks (three_sleepers True) + of_nat k" if "1 \<le> k \<and> k \<le> 3" for k
  proof -
    from that have "k = 1 \<or> k = 2 \<or> k = 3" by auto
    then show ?thesis by (auto simp add: scenario_defs word_sle_eq)
  qed
  then have f: "\<forall>k. 1 \<le> k \<and> k \<le> 3 \<longrightarrow>
      \<not> wake_tick ?e \<le>s ticks (three_sleepers True) + of_nat k" by blast
  have t: "thread ?e = 3" by (simp add: sleeper_def)
  have g: "ticks (three_sleepers True) = 5" by (simp add: scenario_defs)
  show ?thesis
    using a c no_early_wake [OF a b c d f]
    by (simp add: t run_ticks g)
qed

subsection \<open>The legacy policy\<close>

lemma timer_interrupt_legacy:
  assumes "\<not> thread_mlfqs (sched s)"
  shows "mlfq_priority (threads (sched (timer_interrupt on_tick s)) t) =
           mlfq_priority (threads (sched s) t)"
    and "ticks_at_priority (threads (sched (timer_interrupt on_tick s)) t) =
           ticks_at_priority (threads (sched s) t)"
    and "\<not> thread_mlfqs (sched (timer_interrupt on_tick s))"
  using assms
  by (simp_all add: timer_interrupt_sched on_tick_legacy wake_sleepers_legacy_fields
      wake_sleepers_mlfqs)

lemma run_legacy:
  assumes "\<not> thread_mlfqs (sched s)"
  shows "\<not> thread_mlfqs (sched ((timer_interrupt on_tick ^^ n) s)) \<and>
         mlfq_priority (threads (sched ((timer_interrupt on_tick ^^ n) s)) t) =
           mlfq_priority (threads (sched s) t) \<and>
         ticks_at_priority (threads (sched ((timer_interrupt on_tick ^^ n) s)) t) =
           ticks_at_priority (threads (sched s) t)"
  using assms by (induction n) (simp_all add: timer_interrupt_legacy)

text \<open>
  Claim C6. Under the legacy policy (the MLFQ flag false) the sleep path neither
  snapshots nor restores. A call of \<^verbatim>\<open>timer_sleep\<close> with a positive duration appends an
  entry whose two saved fields are not written: they keep the content \<open>st0\<close> that the
  stack slot had. From then on, after any number \<open>n\<close> of timer interrupts, whichever
  sleepers they wake, the MLFQ priority and tick count of every task \<open>t\<close> are what they
  were before the call, and the flag is still false.
\<close>

theorem legacy_no_snapshot_no_restore:
  assumes "\<not> thread_mlfqs (sched s)" and "intr_get_level s = INTR_ON" and "0 <s nticks"
  shows "\<exists>st s1. timer_sleep nticks st0 s = Inr s1 \<and>
           sleep_list s1 = sleep_list s @ [st] \<and>
           saved_mlfq_priority st = saved_mlfq_priority st0 \<and>
           saved_ticks_at_priority st = saved_ticks_at_priority st0 \<and>
           \<not> thread_mlfqs (sched ((timer_interrupt on_tick ^^ n) s1)) \<and>
           mlfq_priority (threads (sched ((timer_interrupt on_tick ^^ n) s1)) t) =
             mlfq_priority (threads (sched s) t) \<and>
           ticks_at_priority (threads (sched ((timer_interrupt on_tick ^^ n) s1)) t) =
             ticks_at_priority (threads (sched s) t)"
proof -
  let ?st = "st0\<lparr>thread := running (sched s), wake_tick := ticks s + nticks\<rparr>"
  let ?s1 = "s\<lparr>sleep_list := sleep_list s @ [?st], sched := thread_block (sched s)\<rparr>"
  have on: "intr_level s = INTR_ON" using assms(2) by (simp add: intr_get_level_def)
  have np: "\<not> nticks \<le>s 0" using assms(3) by (simp add: word_sle_eq word_sless_alt)
  have r: "timer_sleep nticks st0 s = Inr ?s1"
    using assms(1) by (simp add: timer_sleep_pos [OF on np])
  have l: "\<not> thread_mlfqs (sched ?s1)" using assms(1) by (simp add: thread_block_fields)
  have "\<not> thread_mlfqs (sched ((timer_interrupt on_tick ^^ n) ?s1)) \<and>
        mlfq_priority (threads (sched ((timer_interrupt on_tick ^^ n) ?s1)) t) =
          mlfq_priority (threads (sched s) t) \<and>
        ticks_at_priority (threads (sched ((timer_interrupt on_tick ^^ n) ?s1)) t) =
          ticks_at_priority (threads (sched s) t)"
    using run_legacy [OF l, of n t] by (simp add: thread_block_fields)
  then show ?thesis using r by (intro exI [of _ ?st] exI [of _ ?s1]) simp
qed

theorem legacy_no_snapshot_no_restore_witness:
  "(case timer_sleep 3 stack_junk (scenario False) of
      Inl e \<Rightarrow> False
    | Inr s1 \<Rightarrow>
        sleep_list s1 = [sleeper 1 8 11 13] \<and>
        task_view s1 1 = (5, THREAD_BLOCKED, 0, 3) \<and>
        task_view ((timer_interrupt on_tick ^^ 3) s1) 1 = (8, THREAD_READY, 0, 3) \<and>
        sleep_list ((timer_interrupt on_tick ^^ 3) s1) = [])"
proof -
  have a: "\<not> thread_mlfqs (sched (scenario False))"
    and b: "intr_get_level (scenario False) = INTR_ON"
    by (simp_all add: scenario_defs intr_get_level_def)
  have c: "(0 :: int64) <s 3" by (simp add: word_sless_alt)
  obtain st s1 where r: "timer_sleep 3 stack_junk (scenario False) = Inr s1"
    and f: "mlfq_priority (threads (sched ((timer_interrupt on_tick ^^ 3) s1)) 1) =
             mlfq_priority (threads (sched (scenario False)) 1)"
      "ticks_at_priority (threads (sched ((timer_interrupt on_tick ^^ 3) s1)) 1) =
             ticks_at_priority (threads (sched (scenario False)) 1)"
    using legacy_no_snapshot_no_restore [OF a b c, of stack_junk 3 1] by blast
  have e: "timer_sleep 3 stack_junk (scenario False) =
      Inr ((scenario False)\<lparr>sleep_list := [sleeper 1 8 11 13],
             sched := thread_block (sched (scenario False))\<rparr>)"
    by (simp add: scenario_defs timer_sleep_pos word_sle_eq)
  have s1: "s1 = (scenario False)\<lparr>sleep_list := [sleeper 1 8 11 13],
             sched := thread_block (sched (scenario False))\<rparr>"
    using r e by simp
  have v: "sleep_list s1 = [sleeper 1 8 11 13]" "task_view s1 1 = (5, THREAD_BLOCKED, 0, 3)"
    "status (threads (sched ((timer_interrupt on_tick ^^ 3) s1)) 1) = THREAD_READY"
    "sleep_list ((timer_interrupt on_tick ^^ 3) s1) = []"
    by (simp_all add: s1 scenario_defs run_defs)
  have g: "mlfq_priority (threads (sched (scenario False)) 1) = 0"
    "ticks_at_priority (threads (sched (scenario False)) 1) = 3"
    by (simp_all add: scenario_defs)
  show ?thesis using v f by (simp add: r g task_view_def run_ticks) (simp add: s1 scenario_defs)
qed

subsection \<open>The tick counter\<close>

lemma sint_inc:
  assumes "(x :: int64) \<noteq> 0x7FFFFFFFFFFFFFFF"
  shows "sint (x + 1) = sint x + 1"
proof -
  have u: "sint x < 2 ^ 63" using sint_lt [of x] by simp
  have l: "- (2 ^ 63) \<le> sint x" using sint_ge [of x] by simp
  have "sint x \<noteq> 2 ^ 63 - 1"
  proof
    assume "sint x = 2 ^ 63 - 1"
    then have "word_of_int (sint x) = (word_of_int (2 ^ 63 - 1) :: int64)" by simp
    then show False using assms by simp
  qed
  then have "sint x + 1 < 2 ^ 63" using u by simp
  moreover have "sint (x + 1) = signed_take_bit 63 (sint x + 1)"
    by (simp add: sint_word_ariths)
  ultimately show ?thesis using l by (simp add: signed_take_bit_int_eq_self)
qed

lemma sint_add_nat:
  assumes "sint (x :: int64) + int n < 2 ^ 63"
  shows "sint (x + of_nat n) = sint x + int n"
  using assms
proof (induction n)
  case 0
  then show ?case by simp
next
  case (Suc n)
  then have ih: "sint (x + of_nat n) = sint x + int n" by simp
  have "sint (x + of_nat n) \<noteq> 2 ^ 63 - 1" using Suc.prems ih by simp
  then have "x + of_nat n \<noteq> 0x7FFFFFFFFFFFFFFF" by auto
  then have "sint (x + of_nat n + 1) = sint (x + of_nat n) + 1" by (rule sint_inc)
  then show ?case using ih by (simp add: ac_simps)
qed

text \<open>
  Claim C7. Every invocation of the timer interrupt handler adds one to the tick counter
  and calls \<^verbatim>\<open>thread_tick\<close> once, before the wake check: the thread subsystem's state
  after the handler is that of the wake loop run on the result of one application of
  \<^verbatim>\<open>thread_tick\<close>, and a \<^verbatim>\<open>thread_tick\<close> that counts its calls counts one. The
  counter is 0 at boot and nothing else writes it, so after \<open>n\<close> interrupts it is \<open>n\<close>,
  and the next interrupt makes it \<open>n + 1\<close>: it is strictly increasing and never
  decreases. Here \<open>n\<close> is below \<open>2 ^ 63 - 1\<close>, more interrupts than the timer, at no more
  than 1000 per second, delivers in 290 million years.
\<close>

theorem timer_interrupt_tick_once:
  assumes "ticks s0 = 0" and "int n < 2 ^ 63 - 1" and "s = (timer_interrupt tt ^^ n) s0"
  shows "ticks (timer_interrupt tt s) = ticks s + 1 \<and>
         sint (ticks s) = int n \<and>
         sint (ticks (timer_interrupt tt s)) = int n + 1 \<and>
         ticks s <s ticks (timer_interrupt tt s) \<and>
         sched (timer_interrupt tt s) =
           snd (wake_sleepers (ticks s + 1) (sleep_list s) (tt (sched s))) \<and>
         boost_counter
           (sched (timer_interrupt (\<lambda>sc. sc\<lparr>boost_counter := Suc (boost_counter sc)\<rparr>) s)) =
           Suc (boost_counter (sched s))"
proof -
  have a: "sint (ticks s0) + int n < 2 ^ 63" using assms(1,2) by simp
  have n: "sint (ticks s) = int n"
    using sint_add_nat [OF a] assms(1) by (simp add: assms(3) run_ticks)
  have "sint (ticks s0) + int (Suc n) < 2 ^ 63" using assms(1,2) by simp
  then have "sint (ticks s0 + of_nat (Suc n)) = sint (ticks s0) + int (Suc n)"
    by (rule sint_add_nat)
  then have m: "sint (ticks (timer_interrupt tt s)) = int n + 1"
    using assms(1) by (simp add: timer_interrupt_ticks assms(3) run_ticks ac_simps)
  show ?thesis
    using n m
    by (simp add: timer_interrupt_ticks timer_interrupt_sched wake_sleepers_misc word_sless_alt)
qed

theorem timer_interrupt_tick_once_witness:
  "ticks at_boot = 0 \<and>
   sint (ticks ((timer_interrupt on_tick ^^ 100) at_boot)) = 100 \<and>
   sint (ticks (timer_interrupt on_tick ((timer_interrupt on_tick ^^ 100) at_boot))) = 101 \<and>
   ticks ((timer_interrupt on_tick ^^ 100) at_boot) <s
     ticks (timer_interrupt on_tick ((timer_interrupt on_tick ^^ 100) at_boot))"
proof -
  have a: "ticks at_boot = 0" by (simp add: scenario_defs)
  have b: "int 100 < 2 ^ 63 - 1" by simp
  note T = timer_interrupt_tick_once [OF a b refl, of on_tick]
  show ?thesis
    using a T [THEN conjunct2, THEN conjunct1] T [THEN conjunct2, THEN conjunct2, THEN conjunct1]
      T [THEN conjunct2, THEN conjunct2, THEN conjunct2, THEN conjunct1]
    by simp
qed

subsection \<open>Completeness and order of the wake check\<close>

text \<open>
  Claim C8. One invocation of the timer interrupt handler removes every sleep entry whose
  wake tick is at most the incremented tick count and keeps every other one, in order;
  the due entries are restored and unblocked one after the other in the order of the
  sleep list: the thread subsystem's state is the left fold of restore-and-unblock over
  the due entries, so the ready FIFO (legacy) or each level's FIFO (MLFQ) gains the woken
  tasks at its tail in that order. The order of the sleep list is the order of
  registration, as \<^verbatim>\<open>timer_sleep\<close> appends its entry at the back.
\<close>

theorem wake_all_due_in_order:
  "sleep_list (timer_interrupt tt s) =
     filter (\<lambda>e. \<not> wake_tick e \<le>s ticks s + 1) (sleep_list s) \<and>
   sched (timer_interrupt tt s) =
     foldl (\<lambda>sc e. thread_unblock (thread e) (restore_mlfq_state e sc)) (tt (sched s))
       (filter (\<lambda>e. wake_tick e \<le>s ticks s + 1) (sleep_list s)) \<and>
   (if thread_mlfqs (tt (sched s))
    then mlfq_queues (sched (timer_interrupt tt s)) p =
           mlfq_queues (tt (sched s)) p @
           map thread (filter (\<lambda>e. wake_tick e \<le>s ticks s + 1 \<and> unat (saved_mlfq_priority e) = p)
             (sleep_list s))
    else ready_list (sched (timer_interrupt tt s)) =
           ready_list (tt (sched s)) @
           map thread (filter (\<lambda>e. wake_tick e \<le>s ticks s + 1) (sleep_list s))) \<and>
   (intr_get_level s = INTR_ON \<and> 0 <s nticks \<longrightarrow>
      (\<exists>st s1. timer_sleep nticks st0 s = Inr s1 \<and> sleep_list s1 = sleep_list s @ [st] \<and>
         thread st = thread_current (sched s)))"
proof -
  have "\<exists>st s1. timer_sleep nticks st0 s = Inr s1 \<and> sleep_list s1 = sleep_list s @ [st] \<and>
         thread st = thread_current (sched s)"
    if "intr_get_level s = INTR_ON \<and> 0 <s nticks"
  proof -
    from that have "intr_level s = INTR_ON" "\<not> nticks \<le>s 0"
      by (simp_all add: intr_get_level_def word_sle_eq word_sless_alt)
    then show ?thesis by (auto simp add: timer_sleep_pos thread_current_def)
  qed
  then show ?thesis
    by (simp add: timer_interrupt_sleep_list timer_interrupt_sched wake_sleepers_snd [symmetric]
        wake_sleepers_mlfq_queues wake_sleepers_ready_list)
qed

theorem wake_all_due_in_order_witness:
  "sleep_list (timer_interrupt on_tick (three_sleepers False)) = [sleeper 3 9 4 2] \<and>
   ready_list (sched (timer_interrupt on_tick (three_sleepers False))) = [2, 4] \<and>
   sleep_list (timer_interrupt on_tick (three_sleepers True)) = [sleeper 3 9 4 2] \<and>
   mlfq_queues (sched (timer_interrupt on_tick (three_sleepers True))) 17 = [2, 4] \<and>
   intr_get_level (three_sleepers True) = INTR_ON \<and> (0 :: int64) <s 7 \<and>
   (\<exists>st s1. timer_sleep 7 stack_junk (three_sleepers True) = Inr s1 \<and>
      sleep_list s1 = [sleeper 2 6 17 1, sleeper 3 9 4 2, sleeper 4 6 17 0, st] \<and> thread st = 1)"
proof -
  have a: "intr_get_level (three_sleepers True) = INTR_ON \<and> (0 :: int64) <s 7"
    by (simp add: scenario_defs intr_get_level_def word_sless_alt)
  have v: "ticks (three_sleepers b) = 5"
    "sleep_list (three_sleepers b) = [sleeper 2 6 17 1, sleeper 3 9 4 2, sleeper 4 6 17 0]"
    "thread_mlfqs (on_tick (sched (three_sleepers b))) = b"
    "ready_list (on_tick (sched (three_sleepers False))) = []"
    "mlfq_queues (on_tick (sched (three_sleepers True))) 17 = []"
    "thread_current (sched (three_sleepers True)) = 1" for b
    by (simp_all add: scenario_defs on_tick_def boost_all_def account_tick_def Let_def
        BOOST_INTERVAL_def thread_current_def)
  note L = wake_all_due_in_order [of on_tick "three_sleepers False" 17 7 stack_junk]
  note M = wake_all_due_in_order [of on_tick "three_sleepers True" 17 7 stack_junk]
  have l1: "sleep_list (timer_interrupt on_tick (three_sleepers False)) = [sleeper 3 9 4 2]"
    using L [THEN conjunct1] by (simp add: v) (simp add: sleeper_def word_sle_eq)
  have l2: "ready_list (sched (timer_interrupt on_tick (three_sleepers False))) = [2, 4]"
    using L [THEN conjunct2, THEN conjunct2, THEN conjunct1]
    by (simp add: v) (simp add: sleeper_def word_sle_eq)
  have m1: "sleep_list (timer_interrupt on_tick (three_sleepers True)) = [sleeper 3 9 4 2]"
    using M [THEN conjunct1] by (simp add: v) (simp add: sleeper_def word_sle_eq)
  have m2: "mlfq_queues (sched (timer_interrupt on_tick (three_sleepers True))) 17 = [2, 4]"
    using M [THEN conjunct2, THEN conjunct2, THEN conjunct1]
    by (simp add: v) (simp add: sleeper_def word_sle_eq)
  have m3: "\<exists>st s1. timer_sleep 7 stack_junk (three_sleepers True) = Inr s1 \<and>
      sleep_list s1 = [sleeper 2 6 17 1, sleeper 3 9 4 2, sleeper 4 6 17 0, st] \<and> thread st = 1"
    using M [THEN conjunct2, THEN conjunct2, THEN conjunct2] a by (simp add: v)
  show ?thesis using a l1 l2 m1 m2 m3 by simp
qed

subsection \<open>Real-time sleeps\<close>

lemma sint_scast_32_64: "sint (scast (w :: int32) :: int64) = sint w"
  by (rule sint_up_scast) (simp add: is_up)

lemma sdiv_nonneg_pos: "0 \<le> (a :: int) \<Longrightarrow> 0 < b \<Longrightarrow> a sdiv b = a div b"
  by (cases "a = 0") (simp_all add: signed_divide_int_def)

lemma sint_of_int_64: "- (2 ^ 63) \<le> k \<Longrightarrow> k < 2 ^ 63 \<Longrightarrow> sint (word_of_int k :: int64) = k"
  by (simp add: sint_sbintrunc' signed_take_bit_int_eq_self)

lemma sint_of_int_32: "- (2 ^ 31) \<le> k \<Longrightarrow> k < 2 ^ 31 \<Longrightarrow> sint (word_of_int k :: int32) = k"
  by (simp add: sint_sbintrunc' signed_take_bit_int_eq_self)

lemma sdiv64_pos:
  assumes "0 < sint b"
  shows "sdiv64 a b = Inr (word_of_int (sint a sdiv sint b))"
proof -
  have "b \<noteq> 0" using assms by auto
  moreover have "b \<noteq> - 1" using assms by auto
  ultimately show ?thesis by (simp add: sdiv64_def)
qed

lemma real_time_ticks_value:
  assumes "timer_freq_ok F" "0 \<le>s num" "sint num * sint F < 2 ^ 63" "0 <s denom"
  shows "\<exists>q. real_time_ticks F num denom = Inr q \<and>
             sint q = (sint num * sint F) div sint denom"
proof -
  have f: "19 \<le> sint F" using assms(1) by (simp add: timer_freq_ok_def word_sle_eq)
  have n: "0 \<le> sint num" using assms(2) by (simp add: word_sle_eq)
  have d: "0 < sint denom" using assms(4) by (simp add: word_sless_alt)
  have p: "0 \<le> sint num * sint F" using f n by simp
  have m: "sint (num * scast F) = sint num * sint F"
    using p assms(3)
    by (simp add: sint_word_mult sint_scast_32_64 signed_take_bit_int_eq_self)
  have d': "0 < sint (scast denom :: int64)" using d by (simp add: sint_scast_32_64)
  let ?q = "(sint num * sint F) div sint denom"
  have q0: "0 \<le> ?q" using p d by (simp add: pos_imp_zdiv_nonneg_iff)
  have "?q \<le> (sint num * sint F) div 1" using p d by (intro zdiv_mono2) simp_all
  then have q1: "?q < 2 ^ 63" using assms(3) by simp
  have "real_time_ticks F num denom = Inr (word_of_int ?q)"
    using p d by (simp add: real_time_ticks_def sdiv64_pos [OF d'] m sint_scast_32_64
        sdiv_nonneg_pos)
  moreover have "sint (word_of_int ?q :: int64) = ?q"
    using q0 q1 by (intro sint_of_int_64) simp_all
  ultimately show ?thesis by blast
qed

lemma real_time_delay_returns:
  assumes "0 <s denom" "sint denom mod 1000 = 0"
  shows "real_time_delay F num denom s = Inr s"
proof -
  have d: "0 < sint denom" using assms(1) by (simp add: word_sless_alt)
  have sm: "sint denom smod 1000 = 0"
    using d assms(2) by (simp add: signed_modulo_int_def)
  have "(1000 :: int) dvd sint denom" using assms(2) by (simp add: dvd_eq_mod_eq_0)
  then have ge: "1000 \<le> sint denom" using d by (rule zdvd_imp_le)
  have lt: "sint denom < 2 ^ 31" using sint_lt [of denom] by simp
  have sd: "sint denom sdiv 1000 = sint denom div 1000"
    using d by (simp add: sdiv_nonneg_pos)
  have q: "1 \<le> sint denom div 1000" "sint denom div 1000 < 2 ^ 31" using ge lt by simp_all
  have "sint (word_of_int (sint denom div 1000) :: int32) = sint denom div 1000"
    using q by (intro sint_of_int_32) simp_all
  then have p2: "0 < sint (scast (word_of_int (sint denom sdiv 1000) :: int32) :: int64)"
    using q by (simp add: sint_scast_32_64 sd)
  have p1: "0 < sint (1000 :: int64)" by simp
  show ?thesis
    by (simp add: real_time_delay_def sm sdiv64_pos [OF p1] sdiv64_pos [OF p2] busy_wait_id)
qed

text \<open>
  Claim C9, as amended. Let \<open>19 \<le> TIMER_FREQ \<le> 1000\<close>, \<open>num \<ge> 0\<close> with
  \<open>num * TIMER_FREQ\<close> at most the largest \<^verbatim>\<open>int64_t\<close> value, and \<open>denom > 0\<close>, and let
  interrupts be on. Then \<^verbatim>\<open>real_time_sleep\<close> computes exactly
  \<open>num * TIMER_FREQ div denom\<close> ticks, rounding down. If that is positive it is the call
  of \<^verbatim>\<open>timer_sleep\<close> for that many ticks, which registers an entry due that many ticks
  after the current count and blocks the caller. Otherwise it is the call of
  \<^verbatim>\<open>real_time_delay\<close>, which, \<open>denom\<close> being a multiple of 1000 as at every call
  site, busy-waits and returns with the state unchanged: nothing is registered and nobody
  is blocked.
\<close>

theorem real_time_sleep_conversion:
  assumes "timer_freq_ok TIMER_FREQ" and "0 \<le>s num"
    and "sint num * sint TIMER_FREQ < 2 ^ 63" and "0 <s denom"
    and "intr_get_level s = INTR_ON"
  shows "\<exists>q. real_time_ticks TIMER_FREQ num denom = Inr q \<and>
           sint q = (sint num * sint TIMER_FREQ) div sint denom \<and>
           (if 0 <s q
            then real_time_sleep TIMER_FREQ num denom st0 s = timer_sleep q st0 s \<and>
                 (\<exists>st. timer_sleep q st0 s =
                         Inr (s\<lparr>sleep_list := sleep_list s @ [st],
                                sched := thread_block (sched s)\<rparr>) \<and>
                       thread st = thread_current (sched s) \<and> wake_tick st = ticks s + q)
            else real_time_sleep TIMER_FREQ num denom st0 s =
                   real_time_delay TIMER_FREQ num denom s \<and>
                 (sint denom mod 1000 = 0 \<longrightarrow>
                    real_time_sleep TIMER_FREQ num denom st0 s = Inr s))"
proof -
  obtain q where q: "real_time_ticks TIMER_FREQ num denom = Inr q"
    "sint q = (sint num * sint TIMER_FREQ) div sint denom"
    using real_time_ticks_value [OF assms(1-4)] by blast
  have on: "intr_level s = INTR_ON" using assms(5) by (simp add: intr_get_level_def)
  show ?thesis
  proof (cases "0 <s q")
    case True
    then have np: "\<not> q \<le>s 0" by (simp add: word_sle_eq word_sless_alt)
    have "\<exists>st. timer_sleep q st0 s =
                 Inr (s\<lparr>sleep_list := sleep_list s @ [st], sched := thread_block (sched s)\<rparr>) \<and>
               thread st = thread_current (sched s) \<and> wake_tick st = ticks s + q"
      by (auto simp add: timer_sleep_pos [OF on np] thread_current_def)
    then show ?thesis using q True assms(5) by (simp add: real_time_sleep_def)
  next
    case False
    then show ?thesis
      using q assms(4,5) by (simp add: real_time_sleep_def real_time_delay_returns)
  qed
qed

theorem real_time_sleep_conversion_witness:
  "timer_freq_ok 100 \<and> intr_get_level (scenario True) = INTR_ON \<and>
   real_time_ticks 100 250 1000 = Inr 25 \<and>
   (\<exists>st. timer_msleep 100 250 stack_junk (scenario True) =
           Inr ((scenario True)\<lparr>sleep_list := sleep_list (scenario True) @ [st],
                  sched := thread_block (sched (scenario True))\<rparr>) \<and>
         wake_tick st = 30) \<and>
   real_time_ticks 100 50 (1000 * 1000) = Inr 0 \<and>
   timer_usleep 100 50 stack_junk (scenario True) = Inr (scenario True)"
proof -
  have f: "timer_freq_ok 100" by (simp add: timer_freq_ok_def)
  have on: "intr_get_level (scenario True) = INTR_ON"
    by (simp add: scenario_defs intr_get_level_def)
  have t: "ticks (scenario True) = 5" by (simp add: scenario_defs)
  have a: "(0 :: int64) \<le>s 250" "sint (250 :: int64) * sint (100 :: int32) < 2 ^ 63"
    "(0 :: int32) <s 1000"
    by (simp_all add: word_sle_eq word_sless_alt)
  have b: "(0 :: int64) \<le>s 50" "sint (50 :: int64) * sint (100 :: int32) < 2 ^ 63"
    "(0 :: int32) <s 1000 * 1000"
    by (simp_all add: word_sle_eq word_sless_alt)
  obtain q where q: "real_time_ticks 100 250 1000 = Inr q" "sint q = 25"
    and qs: "if 0 <s q
            then real_time_sleep 100 250 1000 stack_junk (scenario True) =
                   timer_sleep q stack_junk (scenario True) \<and>
                 (\<exists>st. timer_sleep q stack_junk (scenario True) =
                         Inr ((scenario True)\<lparr>sleep_list := sleep_list (scenario True) @ [st],
                                sched := thread_block (sched (scenario True))\<rparr>) \<and>
                       thread st = thread_current (sched (scenario True)) \<and>
                       wake_tick st = ticks (scenario True) + q)
            else real_time_sleep 100 250 1000 stack_junk (scenario True) =
                   real_time_delay 100 250 1000 (scenario True) \<and>
                 (sint (1000 :: int32) mod 1000 = 0 \<longrightarrow>
                    real_time_sleep 100 250 1000 stack_junk (scenario True) = Inr (scenario True))"
    using real_time_sleep_conversion [OF f a on, of stack_junk] by auto
  have "word_of_int (sint q) = (word_of_int 25 :: int64)" using q(2) by simp
  then have q25: "q = 25" by simp
  obtain r where r: "real_time_ticks 100 50 (1000 * 1000) = Inr r" "sint r = 0"
    and rs: "if 0 <s r
            then real_time_sleep 100 50 (1000 * 1000) stack_junk (scenario True) =
                   timer_sleep r stack_junk (scenario True) \<and>
                 (\<exists>st. timer_sleep r stack_junk (scenario True) =
                         Inr ((scenario True)\<lparr>sleep_list := sleep_list (scenario True) @ [st],
                                sched := thread_block (sched (scenario True))\<rparr>) \<and>
                       thread st = thread_current (sched (scenario True)) \<and>
                       wake_tick st = ticks (scenario True) + r)
            else real_time_sleep 100 50 (1000 * 1000) stack_junk (scenario True) =
                   real_time_delay 100 50 (1000 * 1000) (scenario True) \<and>
                 (sint (1000 * 1000 :: int32) mod 1000 = 0 \<longrightarrow>
                    real_time_sleep 100 50 (1000 * 1000) stack_junk (scenario True) =
                      Inr (scenario True))"
    using real_time_sleep_conversion [OF f b on, of stack_junk] by auto
  have "word_of_int (sint r) = (word_of_int 0 :: int64)" using r(2) by simp
  then have r0: "r = 0" by simp
  have m: "\<exists>st. timer_msleep 100 250 stack_junk (scenario True) =
           Inr ((scenario True)\<lparr>sleep_list := sleep_list (scenario True) @ [st],
                  sched := thread_block (sched (scenario True))\<rparr>) \<and>
         wake_tick st = 30"
    using qs by (simp add: q25 timer_msleep_def word_sless_alt t) blast
  have u: "timer_usleep 100 50 stack_junk (scenario True) = Inr (scenario True)"
    using rs by (auto simp add: r0 timer_usleep_def)
  show ?thesis using f on q(1) r(1) m u by (simp add: q25 r0)
qed

text \<open>
  The claim as stated fails in two ways. For \<open>num = 2 ^ 62\<close> milliseconds at 100 ticks per
  second the product \<open>num * TIMER_FREQ\<close> wraps around to 0, so the tick count is 0 and not
  \<open>461168601842738790\<close>, and the caller busy-waits instead of blocking. And for a
  denominator that is no multiple of 1000 the busy-wait branch stops on its assertion.
\<close>

theorem real_time_sleep_overflow_and_assert:
  "(0 :: int64) \<le>s 0x4000000000000000 \<and> (0 :: int32) <s 1000 \<and>
   (0x4000000000000000 * 100) div 1000 = (461168601842738790 :: int) \<and>
   real_time_ticks 100 0x4000000000000000 1000 = Inr 0 \<and>
   timer_msleep 100 0x4000000000000000 stack_junk (scenario True) = Inr (scenario True) \<and>
   (0 :: int32) <s 7 \<and>
   real_time_sleep 100 0 7 stack_junk (scenario True) = Inl Assertion_failed"
proof -
  have on: "intr_get_level (scenario True) = INTR_ON"
    by (simp add: scenario_defs intr_get_level_def)
  have a: "real_time_ticks 100 0x4000000000000000 1000 = Inr 0"
    by (simp add: real_time_ticks_def sdiv64_def)
  have b: "real_time_delay 100 0x4000000000000000 1000 (scenario True) = Inr (scenario True)"
    by (simp add: real_time_delay_returns word_sless_alt)
  have c: "real_time_ticks 100 0 7 = Inr 0"
    by (simp add: real_time_ticks_def sdiv64_def)
  have d: "real_time_delay 100 0 7 (scenario True) = Inl Assertion_failed"
    by (simp add: real_time_delay_def signed_modulo_int_def)
  show ?thesis
    using on by (simp add: timer_msleep_def real_time_sleep_def a b c d word_sle_eq word_sless_alt)
qed

subsection \<open>A boost during the sleep\<close>

text \<open>
  Claim C1 says that a task that sleeps through a boost has, on wake, the boosted top
  level 19 and a tick count of 0. The code does otherwise. The boost of thread.c reaches
  the sleeping task's own fields, not the entry that \<^verbatim>\<open>timer_sleep\<close> keeps on the
  sleeper's stack, and the wake path of \<^verbatim>\<open>timer_interrupt\<close> writes the entry's snapshot
  back without condition. In the spec's scenario (level 0, 3 ticks used, sleeping at tick
  5 for 100 ticks): the task is boosted to level 19 at tick 50 while it sleeps, its entry
  still holds level 0 and 3 ticks, and at tick 105 it wakes at level 0 with 3 ticks used.
\<close>

theorem boost_during_sleep_overwritten:
  "(case timer_sleep 100 stack_junk (scenario True) of
      Inl e \<Rightarrow> False
    | Inr s1 \<Rightarrow>
        task_view s1 1 = (5, THREAD_BLOCKED, 0, 3) \<and>
        task_view ((timer_interrupt on_tick ^^ 45) s1) 1 = (50, THREAD_BLOCKED, 19, 0) \<and>
        sleep_list ((timer_interrupt on_tick ^^ 45) s1) = [sleeper 1 105 0 3] \<and>
        task_view ((timer_interrupt on_tick ^^ 100) s1) 1 = (105, THREAD_READY, 0, 3))"
  by (simp add: scenario_defs run_defs)

end
